theory Spec2Isabelle
  imports Complex_Main
begin

section \<open>JavaScript strings\<close>

text \<open>
  A JavaScript string is a sequence of UTF-16 code units; a code unit is modelled as a
  natural number. \<open>js\<close> turns an ASCII literal into such a sequence.
\<close>

type_synonym code_unit = nat
type_synonym jsstring = "code_unit list"

definition js :: "string \<Rightarrow> jsstring" where
  "js s = map of_char s"

text \<open>
  \<^verbatim>\<open>String.prototype.trim\<close> removes the code points of the ECMAScript productions
  WhiteSpace and LineTerminator from both ends: TAB, LF, VT, FF, CR, SP, NBSP, U+1680,
  U+2000..U+200A, U+2028, U+2029, U+202F, U+205F, U+3000 and U+FEFF.
\<close>

definition isWhiteSpace :: "code_unit \<Rightarrow> bool" where
  "isWhiteSpace c \<longleftrightarrow>
     c \<in> set [9, 10, 11, 12, 13, 32, 160, 5760, 8232, 8233, 8239, 8287, 12288, 65279]
     \<or> (8192 \<le> c \<and> c \<le> 8202)"

definition trim :: "jsstring \<Rightarrow> jsstring" where
  "trim s = rev (dropWhile isWhiteSpace (rev (dropWhile isWhiteSpace s)))"

definition startsWith :: "jsstring \<Rightarrow> jsstring \<Rightarrow> bool" where
  "startsWith s p \<longleftrightarrow> take (length p) s = p"

fun includes_str :: "jsstring \<Rightarrow> jsstring \<Rightarrow> bool" where
  "includes_str [] p = (p = [])"
| "includes_str (c # cs) p = (startsWith (c # cs) p \<or> includes_str cs p)"

text \<open>
  \<^verbatim>\<open>s.split(sep)\<close> for a separator of one code unit: the pieces between the
  separators, the empty string giving one empty piece. \<^verbatim>\<open>parts.join(sep)\<close> puts the
  separator back between the pieces.
\<close>

fun split :: "jsstring \<Rightarrow> code_unit \<Rightarrow> jsstring list" where
  "split [] sep = [[]]"
| "split (c # cs) sep =
     (if c = sep then [] # split cs sep
      else (case split cs sep of [] \<Rightarrow> [[c]] | p # ps \<Rightarrow> (c # p) # ps))"

fun join :: "jsstring list \<Rightarrow> code_unit \<Rightarrow> jsstring" where
  "join [] sep = []"
| "join [p] sep = p"
| "join (p # q # ps) sep = p @ sep # join (q # ps) sep"

text \<open>
  \<^verbatim>\<open>value.replace(/^["']|["']$/g, '')\<close>: the global replace scans from the left.
  At index 0 the first alternative removes a double or single quote; afterwards the
  second alternative removes a quote that is the last code unit of the string, when it
  was not consumed already.
\<close>

definition isQuote :: "code_unit \<Rightarrow> bool" where
  "isQuote c \<longleftrightarrow> c = 34 \<or> c = 39"

definition stripTrailingQuote :: "jsstring \<Rightarrow> jsstring" where
  "stripTrailingQuote s = (if s \<noteq> [] \<and> isQuote (last s) then butlast s else s)"

definition stripQuotes :: "jsstring \<Rightarrow> jsstring" where
  "stripQuotes s =
     (case s of
        [] \<Rightarrow> []
      | c # cs \<Rightarrow> if isQuote c then stripTrailingQuote cs else stripTrailingQuote (c # cs))"

section \<open>The process environment\<close>

text \<open>
  The environment of the process is a map from variable names to values, both strings. A
  variable can be in the environment with the empty string as its value. In a condition
  (\<^verbatim>\<open>if (process.env[k])\<close>, \<^verbatim>\<open>!process.env[k]\<close>, \<^verbatim>\<open>a && b\<close>) a string counts as
  true when it is not empty, and \<^verbatim>\<open>undefined\<close> counts as false.
\<close>

type_synonym env = "jsstring \<rightharpoonup> jsstring"

definition truthy :: "jsstring option \<Rightarrow> bool" where
  "truthy v = (case v of None \<Rightarrow> False | Some s \<Rightarrow> s \<noteq> [])"

text \<open>
  \<^verbatim>\<open>process.env\<close> is not a plain object. Its getter and setter pass the name and the
  value to \<^verbatim>\<open>getenv\<close> and \<^verbatim>\<open>setenv\<close> as C strings in UTF-8: the conversion replaces
  a surrogate code unit that has no partner by U+FFFD, and the C string ends at the first
  NUL. \<open>cString\<close> gives the code units that reading such a C string back gives.
  \<^verbatim>\<open>setenv\<close> refuses an empty name and a name with \<^verbatim>\<open>=\<close>, and the setter
  ignores the refusal. When \<^verbatim>\<open>getenv\<close> finds no variable, the property is looked up
  with its whole name on \<^verbatim>\<open>Object.prototype\<close>, whose members are functions and objects
  and count as true. A name the script itself writes (a required variable, an alias) is
  plain text and no member of \<^verbatim>\<open>Object.prototype\<close>, so reading it is \<open>e name\<close>; a
  name read from the fallback file can be any string.
\<close>

definition isHighSurrogate :: "code_unit \<Rightarrow> bool" where
  "isHighSurrogate c \<longleftrightarrow> 55296 \<le> c \<and> c \<le> 56319"

definition isLowSurrogate :: "code_unit \<Rightarrow> bool" where
  "isLowSurrogate c \<longleftrightarrow> 56320 \<le> c \<and> c \<le> 57343"

fun toWellFormed :: "jsstring \<Rightarrow> jsstring" where
  "toWellFormed [] = []"
| "toWellFormed [c] = [if isHighSurrogate c \<or> isLowSurrogate c then 65533 else c]"
| "toWellFormed (c # d # cs) =
     (if isHighSurrogate c \<and> isLowSurrogate d then c # d # toWellFormed cs
      else (if isHighSurrogate c \<or> isLowSurrogate c then 65533 else c) # toWellFormed (d # cs))"

definition cString :: "jsstring \<Rightarrow> jsstring" where
  "cString s = takeWhile (\<lambda>c. c \<noteq> 0) (toWellFormed s)"


definition objectPrototype :: "jsstring list" where
  "objectPrototype =
     [js ''constructor'', js ''__defineGetter__'', js ''__defineSetter__'',
      js ''hasOwnProperty'', js ''__lookupGetter__'', js ''__lookupSetter__'',
      js ''isPrototypeOf'', js ''propertyIsEnumerable'', js ''toString'', js ''valueOf'',
      js ''__proto__'', js ''toLocaleString'']"

text \<open>The truth value of \<^verbatim>\<open>process.env[key]\<close>, and \<^verbatim>\<open>process.env[key] = v\<close>.\<close>

definition envTruthy :: "env \<Rightarrow> jsstring \<Rightarrow> bool" where
  "envTruthy e key =
     (case e (cString key) of
        Some v \<Rightarrow> v \<noteq> []
      | None \<Rightarrow> key \<in> set objectPrototype)"

definition envSet :: "env \<Rightarrow> jsstring \<Rightarrow> jsstring \<Rightarrow> env" where
  "envSet e key v =
     (if cString key = [] \<or> 61 \<in> set (cString key) then e
      else e(cString key \<mapsto> cString v))"

definition REQUIRED_VARS :: "jsstring list" where
  "REQUIRED_VARS =
     [js ''OPENAI_API_KEY'', js ''SUPABASE_URL'', js ''SUPABASE_SERVICE_ROLE_KEY'',
      js ''STRIPE_PUBLISHABLE_KEY'', js ''STRIPE_SECRET_KEY'', js ''STRIPE_PRICE_RESPONSE'',
      js ''STRIPE_WEBHOOK_SECRET'', js ''SENDGRID_API_KEY'', js ''SITE_URL'',
      js ''ENVIRONMENT'']"

section \<open>Exceptions\<close>

text \<open>
  A thrown value carries its \<^verbatim>\<open>message\<close> property (if any) and what \<^verbatim>\<open>String(e)\<close>
  gives: Node and the SDKs throw error objects, whose properties can be read. A call that
  may throw returns an \<open>outcome\<close>.
\<close>

datatype js_error = JsError (message: "jsstring option") (as_string: jsstring)

datatype 'a outcome = Throws js_error | Returns 'a

section \<open>The fallback file\<close>

text \<open>
  The file \<^verbatim>\<open>.env\<close> of the working directory: absent (\<^verbatim>\<open>existsSync\<close> is false),
  there but not readable (a directory, or no read permission: \<^verbatim>\<open>readFileSync\<close>
  throws), or readable with its content decoded from UTF-8, which can hold NUL.
\<close>

datatype dotenv = Absent | Unreadable js_error | Content jsstring

text \<open>The body of the loop of \<^verbatim>\<open>loadEnvFromFile\<close>, for one line.\<close>

definition loadLine :: "env \<Rightarrow> jsstring \<Rightarrow> env" where
  "loadLine e line =
     (let trimmed = trim line in
      if trimmed \<noteq> [] \<and> \<not> startsWith trimmed (js ''#'') \<and> includes_str trimmed (js ''='')
      then (case split trimmed 61 of
              [] \<Rightarrow> e
            | key # valueParts \<Rightarrow>
                (let val = stripQuotes (join valueParts 61) in
                 if key \<noteq> [] \<and> val \<noteq> [] \<and> \<not> envTruthy e key then envSet e key val else e))
      else e)"

definition loadEnvFromFile :: "dotenv \<Rightarrow> env \<Rightarrow> env outcome" where
  "loadEnvFromFile f e =
     (case f of
        Absent \<Rightarrow> Returns e
      | Unreadable err \<Rightarrow> Throws err
      | Content envContent \<Rightarrow> Returns (foldl loadLine e (split envContent 10)))"

section \<open>Alias mapping and presence\<close>

definition mapEnvVars :: "env \<Rightarrow> env" where
  "mapEnvVars e =
     (let e1 = (if truthy (e (js ''STRIPE_PUBLIC_KEY'')) \<and> \<not> truthy (e (js ''STRIPE_PUBLISHABLE_KEY''))
                then e(js ''STRIPE_PUBLISHABLE_KEY'' := e (js ''STRIPE_PUBLIC_KEY''))
                else e)
      in if truthy (e1 (js ''STRIPE_PRICE_ID'')) \<and> \<not> truthy (e1 (js ''STRIPE_PRICE_RESPONSE''))
         then e1(js ''STRIPE_PRICE_RESPONSE'' := e1 (js ''STRIPE_PRICE_ID''))
         else e1)"

text \<open>
  \<^verbatim>\<open>Boolean(process.env[key] && String(process.env[key]).trim())\<close>, and the status
  object of \<^verbatim>\<open>logEnvStatus\<close> as the list of its entries in insertion order.
\<close>

definition present :: "env \<Rightarrow> jsstring \<Rightarrow> bool" where
  "present e key =
     (case e key of None \<Rightarrow> False | Some v \<Rightarrow> v \<noteq> [] \<and> trim v \<noteq> [])"

definition logEnvStatus :: "env \<Rightarrow> (jsstring \<times> bool) list" where
  "logEnvStatus e = map (\<lambda>key. (key, present e key)) REQUIRED_VARS"

section \<open>The hosting CLI\<close>

text \<open>
  What the commands run by \<^verbatim>\<open>execSync\<close> and the calls to the vendors' SDKs give in
  one run is the \<open>world\<close>; \<^verbatim>\<open>execSync\<close> throws when the command is not installed or
  exits with an error. \<^verbatim>\<open>JSON.parse\<close> and the property reads that follow a command are
  part of its entry: \<open>netlify_status\<close> is \<^verbatim>\<open>Boolean(status.siteInfo?.id)\<close>, or the
  exception of any of the three steps; \<open>netlify_sites_list\<close> is the parsed site list.
  The services take the values of the variables they are called with. A clock is the pair
  of readings of \<^verbatim>\<open>nowMs()\<close> at the start of a probe and at its return.
  \<open>netlify_env_get\<close> is what the CLI prints for a variable of the hosting provider:
  plain text, which the assignment to \<^verbatim>\<open>process.env\<close> stores whole.
\<close>

datatype site = Site (site_name: "jsstring option") (site_id: jsstring)

datatype sites_json = NotArray | SitesArray "site list"

datatype product = Product (product_id: "jsstring option")

datatype product_ref = ProductId jsstring | ProductObject "product option"

record world =
  netlify_status :: "bool outcome"
  git_remote :: "jsstring outcome"
  netlify_link_git :: "unit outcome"
  netlify_sites_list :: "sites_json outcome"
  netlify_link_id :: "jsstring \<Rightarrow> unit outcome"
  netlify_env_get :: "jsstring \<Rightarrow> jsstring outcome"
  dotenv_file :: dotenv
  openai_create :: "jsstring option \<Rightarrow> jsstring option outcome"
  supabase_insert :: "jsstring option \<Rightarrow> jsstring option \<Rightarrow> jsstring option outcome"
  stripe_prices_retrieve :: "jsstring option \<Rightarrow> jsstring option \<Rightarrow> product_ref outcome"
  stripe_products_retrieve :: "jsstring option \<Rightarrow> jsstring \<Rightarrow> product option outcome"
  sendgrid_profile :: "jsstring option \<Rightarrow> int option outcome"
  fetch_get :: "jsstring option \<Rightarrow> int outcome"
  openai_clock :: "int \<times> int"
  supabase_clock :: "int \<times> int"
  stripe_clock :: "int \<times> int"
  sendgrid_clock :: "int \<times> int"
  site_clock :: "int \<times> int"

text \<open>
  \<^verbatim>\<open>toLowerCase\<close> on the ASCII letters. The two needles of the site filter are ASCII,
  and no code unit outside ASCII lower-cases to a run of their letters, so the filter
  reads no other part of the mapping.
\<close>

definition toLowerCase :: "jsstring \<Rightarrow> jsstring" where
  "toLowerCase s = map (\<lambda>c. if 65 \<le> c \<and> c \<le> 90 then c + 32 else c) s"

definition possibleSite :: "site \<Rightarrow> bool" where
  "possibleSite s =
     (case site_name s of
        None \<Rightarrow> False
      | Some n \<Rightarrow> includes_str (toLowerCase n) (js ''audit'')
                  \<or> includes_str (toLowerCase n) (js ''response''))"

text \<open>
  The \<^verbatim>\<open>try\<close> block that follows a failed status query (lines 33 to 62): the new
  value of \<^verbatim>\<open>isLinked\<close>, or the exception that leaves the block.
\<close>

definition autoLink :: "world \<Rightarrow> bool outcome" where
  "autoLink w =
     (case git_remote w of
        Throws err \<Rightarrow> Throws err
      | Returns gitRemote \<Rightarrow>
          (case netlify_link_git w of
             Returns u \<Rightarrow> Returns True
           | Throws linkErr \<Rightarrow>
               (case netlify_sites_list w of
                  Throws err \<Rightarrow> Throws err
                | Returns NotArray \<Rightarrow> Returns False
                | Returns (SitesArray sites) \<Rightarrow>
                    (case filter possibleSite sites of
                       [s] \<Rightarrow>
                         (case netlify_link_id w (site_id s) of
                            Returns u \<Rightarrow> Returns True
                          | Throws linkErr2 \<Rightarrow> Returns False)
                     | other \<Rightarrow> Returns False))))"

definition isLinked :: "world \<Rightarrow> bool" where
  "isLinked w =
     (case netlify_status w of
        Returns linked \<Rightarrow> linked
      | Throws err \<Rightarrow>
          (case autoLink w of Returns linked \<Rightarrow> linked | Throws linkAttemptErr \<Rightarrow> False))"

text \<open>The body of the loop over \<^verbatim>\<open>REQUIRED_VARS\<close>, on the environment and \<^verbatim>\<open>loadedCount\<close>.\<close>

definition fetchVar :: "world \<Rightarrow> env \<times> nat \<Rightarrow> jsstring \<Rightarrow> env \<times> nat" where
  "fetchVar w st varName =
     (case st of (e, loadedCount) \<Rightarrow>
        if \<not> truthy (e varName)
        then (case netlify_env_get w varName of
                Throws err \<Rightarrow> (e, loadedCount)
              | Returns valueOutput \<Rightarrow>
                  (let val = trim valueOutput in
                   if val \<noteq> [] \<and> \<not> includes_str val (js ''Error'')
                      \<and> \<not> includes_str val (js ''not found'') \<and> length val > 0
                   then (e(varName \<mapsto> val), loadedCount + 1)
                   else (e, loadedCount)))
        else (e, loadedCount))"

definition loadEnvFromNetlify :: "world \<Rightarrow> env \<Rightarrow> (bool \<times> env) outcome" where
  "loadEnvFromNetlify w e =
     (if \<not> isLinked w then Returns (False, e)
      else (case foldl (fetchVar w) (e, 0) REQUIRED_VARS of
              (e', loadedCount) \<Rightarrow> Returns (loadedCount > 0, e')))"

text \<open>
  Resolution as \<^verbatim>\<open>main\<close> runs it: the hosting CLI, the fallback file when the CLI
  loaded nothing, then the aliases. An exception of a step leaves \<^verbatim>\<open>main\<close>.
\<close>

definition resolveEnv :: "world \<Rightarrow> env \<Rightarrow> env outcome" where
  "resolveEnv w e =
     (case loadEnvFromNetlify w e of
        Throws err \<Rightarrow> Throws err
      | Returns (netlifyLoaded, e1) \<Rightarrow>
          (case (if netlifyLoaded then Returns e1 else loadEnvFromFile (dotenv_file w) e1) of
             Throws err \<Rightarrow> Throws err
           | Returns e2 \<Rightarrow> Returns (mapEnvVars e2)))"

section \<open>The probes\<close>

text \<open>
  A Check Result. \<open>ok\<close> is the truth value of the field \<^verbatim>\<open>ok\<close> (the e-mail probe
  may store \<^verbatim>\<open>undefined\<close> or \<^verbatim>\<open>0\<close> there, which the report and the verdict read
  as false). \<open>ms\<close> is the difference of two readings of \<^verbatim>\<open>nowMs()\<close>, an integer.
\<close>

record check_result =
  ok :: bool
  ms :: int
  detail :: jsstring

text \<open>\<^verbatim>\<open>e.message || String(e)\<close>\<close>

definition errorDetail :: "js_error \<Rightarrow> jsstring" where
  "errorDetail err =
     (case message err of
        None \<Rightarrow> as_string err
      | Some m \<Rightarrow> if m \<noteq> [] then m else as_string err)"

text \<open>A template literal's text for an integer: its decimal digits.\<close>

fun digits :: "nat \<Rightarrow> jsstring" where
  "digits n = (if n < 10 then [48 + n] else digits (n div 10) @ [48 + n mod 10])"

declare digits.simps [simp del]

definition numberToString :: "int \<Rightarrow> jsstring" where
  "numberToString i = (if i < 0 then 45 # digits (nat (- i)) else digits (nat i))"

text \<open>
  An \<^verbatim>\<open>async\<close> function gives a promise, which is fulfilled with the returned value
  or rejected with the exception that left the body. Each probe is one \<^verbatim>\<open>try\<close>
  block, whose \<^verbatim>\<open>catch\<close> returns a failed Check Result.
\<close>

definition tryCatch :: "'a outcome \<Rightarrow> (js_error \<Rightarrow> 'a outcome) \<Rightarrow> 'a outcome" where
  "tryCatch body handler = (case body of Throws err \<Rightarrow> handler err | Returns v \<Rightarrow> Returns v)"

definition elapsed :: "int \<times> int \<Rightarrow> int" where
  "elapsed clock = snd clock - fst clock"

definition failed :: "int \<times> int \<Rightarrow> js_error \<Rightarrow> check_result outcome" where
  "failed clock err = Returns \<lparr>ok = False, ms = elapsed clock, detail = errorDetail err\<rparr>"

definition checkOpenAI :: "world \<Rightarrow> env \<Rightarrow> check_result outcome" where
  "checkOpenAI w e =
     tryCatch
       (case openai_create w (e (js ''OPENAI_API_KEY'')) of
          Throws err \<Rightarrow> Throws err
        | Returns content \<Rightarrow>
            (let text = (case content of None \<Rightarrow> [] | Some t \<Rightarrow> t);
                 ok = (text \<noteq> [] \<and> length text > 0)
             in Returns \<lparr>ok = ok, ms = elapsed (openai_clock w),
                         detail = (if ok then js ''OK'' else js ''Empty response'')\<rparr>))
       (failed (openai_clock w))"

definition checkSupabase :: "world \<Rightarrow> env \<Rightarrow> check_result outcome" where
  "checkSupabase w e =
     tryCatch
       (case supabase_insert w (e (js ''SUPABASE_URL'')) (e (js ''SUPABASE_SERVICE_ROLE_KEY'')) of
          Throws err \<Rightarrow> Throws err
        | Returns (Some error_message) \<Rightarrow>
            Returns \<lparr>ok = False, ms = elapsed (supabase_clock w),
                      detail = js ''Insert failed: '' @ error_message\<rparr>
        | Returns None \<Rightarrow>
            Returns \<lparr>ok = True, ms = elapsed (supabase_clock w),
                      detail = js ''Inserted dummy record''\<rparr>)
       (failed (supabase_clock w))"

definition checkStripe :: "world \<Rightarrow> env \<Rightarrow> check_result outcome" where
  "checkStripe w e =
     tryCatch
       (case stripe_prices_retrieve w (e (js ''STRIPE_SECRET_KEY'')) (e (js ''STRIPE_PRICE_RESPONSE'')) of
          Throws err \<Rightarrow> Throws err
        | Returns price_product \<Rightarrow>
            (case (case price_product of
                     ProductId pid \<Rightarrow> stripe_products_retrieve w (e (js ''STRIPE_SECRET_KEY'')) pid
                   | ProductObject obj \<Rightarrow> Returns obj) of
               Throws err \<Rightarrow> Throws err
             | Returns productObj \<Rightarrow>
                 (let ok = (case productObj of None \<Rightarrow> False | Some p \<Rightarrow> truthy (product_id p))
                  in Returns \<lparr>ok = ok, ms = elapsed (stripe_clock w),
                              detail = (if ok
                                        then js ''Product '' @
                                          (case productObj of
                                             Some (Product (Some pid)) \<Rightarrow> pid
                                           | other \<Rightarrow> js ''undefined'')
                                        else js ''No product returned'')\<rparr>)))
       (failed (stripe_clock w))"

definition checkSendGrid :: "world \<Rightarrow> env \<Rightarrow> check_result outcome" where
  "checkSendGrid w e =
     tryCatch
       (case sendgrid_profile w (e (js ''SENDGRID_API_KEY'')) of
          Throws err \<Rightarrow> Throws err
        | Returns statusCode \<Rightarrow>
            (let ok = (case statusCode of None \<Rightarrow> False | Some c \<Rightarrow> c \<noteq> 0 \<and> c < 400)
             in Returns \<lparr>ok = ok, ms = elapsed (sendgrid_clock w),
                         detail = (if ok then js ''Email API reachable''
                                   else js ''Status '' @
                                     (case statusCode of None \<Rightarrow> js ''undefined''
                                      | Some c \<Rightarrow> numberToString c))\<rparr>))
       (failed (sendgrid_clock w))"

definition checkSiteUrl :: "world \<Rightarrow> env \<Rightarrow> check_result outcome" where
  "checkSiteUrl w e =
     tryCatch
       (case fetch_get w (e (js ''SITE_URL'')) of
          Throws err \<Rightarrow> Throws err
        | Returns status \<Rightarrow>
            Returns \<lparr>ok = (status = 200), ms = elapsed (site_clock w),
                      detail = js ''HTTP '' @ numberToString status\<rparr>)
       (failed (site_clock w))"

section \<open>The runner and the verdict\<close>

text \<open>
  \<^verbatim>\<open>Promise.all\<close>: fulfilled with all the values, in the order of the array, when
  every promise is fulfilled, and rejected as soon as one is rejected.
\<close>

fun Promise_all :: "'a outcome list \<Rightarrow> 'a list outcome" where
  "Promise_all [] = Returns []"
| "Promise_all (Throws err # ps) = Throws err"
| "Promise_all (Returns v # ps) =
     (case Promise_all ps of Throws err \<Rightarrow> Throws err | Returns vs \<Rightarrow> Returns (v # vs))"

definition runChecks :: "world \<Rightarrow> env \<Rightarrow> check_result list outcome" where
  "runChecks w e =
     Promise_all [checkOpenAI w e, checkSupabase w e, checkStripe w e, checkSendGrid w e,
                  checkSiteUrl w e]"

text \<open>
  \<^verbatim>\<open>Math.round\<close> rounds to the nearest integer, a half towards plus infinity. The
  elapsed times are integers far below \<open>2^53\<close>, where the sum and the quotient of
  doubles are exact enough for the rational value to round the same way. \<^verbatim>\<open>main\<close>
  takes the average of the five results of the report, never of an empty array.
\<close>

definition Math_round :: "rat \<Rightarrow> int" where
  "Math_round x = \<lfloor>x + 1 / 2\<rfloor>"

definition averageTime :: "check_result list \<Rightarrow> int" where
  "averageTime rs =
     (let responseTimes = map ms rs
      in Math_round (of_int (foldl (+) 0 responseTimes) / of_int (int (length responseTimes))))"

record run_report =
  envStatus :: "(jsstring \<times> bool) list"
  checks :: "check_result list"
  avgTime :: int
  missingKeys :: "jsstring list"
  exitCode :: nat

definition typeError :: js_error where
  "typeError = JsError (Some (js ''Cannot read properties of undefined'')) (js ''TypeError'')"

text \<open>
  \<^verbatim>\<open>main\<close> after resolution: the status of the variables, the five probes, the
  average and the verdict, with the exit code \<^verbatim>\<open>process.exit\<close> is called with.
\<close>

definition report :: "world \<Rightarrow> env \<Rightarrow> run_report outcome" where
  "report w e =
     (let status = logEnvStatus e in
      case runChecks w e of
        Throws err \<Rightarrow> Throws err
      | Returns [openai, supabase, stripe, sendgrid, site] \<Rightarrow>
          (let rep = [openai, supabase, stripe, sendgrid, site];
               missing = map fst (filter (\<lambda>(k, p). \<not> p) status);
               allIntegrationsOk = list_all ok rep;
               allEnvOk = (length missing = 0)
           in Returns \<lparr>envStatus = status, checks = rep, avgTime = averageTime rep,
                       missingKeys = missing,
                       exitCode = (if allEnvOk \<and> allIntegrationsOk then 0 else 1)\<rparr>)
      | Returns other \<Rightarrow> Throws typeError)"

definition main :: "world \<Rightarrow> env \<Rightarrow> run_report outcome" where
  "main w e =
     (case resolveEnv w e of
        Throws err \<Rightarrow> Throws err
      | Returns e' \<Rightarrow> report w e')"

text \<open>
  The exit code of the process: that of \<^verbatim>\<open>main\<close>, or 1 from the handler of
  \<^verbatim>\<open>main().catch\<close> when \<^verbatim>\<open>main\<close> was left by an exception.
\<close>

definition processExit :: "world \<Rightarrow> env \<Rightarrow> nat" where
  "processExit w e = (case main w e of Throws err \<Rightarrow> 1 | Returns r \<Rightarrow> exitCode r)"

section \<open>Example runs\<close>

text \<open>
  Two worlds for the examples. In \<open>offline\<close> no command is installed and every call
  fails; there is no fallback file. In \<open>online\<close> the hosting CLI is missing as well,
  every service answers, and the five probes take 10, 20, 30, 40 and 50 ms.
\<close>

definition commandFailed :: js_error where
  "commandFailed = JsError (Some (js ''Command failed'')) (js ''Error: Command failed'')"

definition offline :: world where
  "offline =
     \<lparr>netlify_status = Throws commandFailed,
      git_remote = Throws commandFailed,
      netlify_link_git = Throws commandFailed,
      netlify_sites_list = Throws commandFailed,
      netlify_link_id = (\<lambda>i. Throws commandFailed),
      netlify_env_get = (\<lambda>k. Throws commandFailed),
      dotenv_file = Absent,
      openai_create = (\<lambda>k. Throws commandFailed),
      supabase_insert = (\<lambda>u k. Throws commandFailed),
      stripe_prices_retrieve = (\<lambda>k p. Throws commandFailed),
      stripe_products_retrieve = (\<lambda>k p. Throws commandFailed),
      sendgrid_profile = (\<lambda>k. Throws commandFailed),
      fetch_get = (\<lambda>u. Throws commandFailed),
      openai_clock = (0, 0), supabase_clock = (0, 0), stripe_clock = (0, 0),
      sendgrid_clock = (0, 0), site_clock = (0, 0)\<rparr>"

definition online :: world where
  "online =
     offline
       \<lparr>openai_create := (\<lambda>k. Returns (Some (js ''A sample sentence.''))),
        supabase_insert := (\<lambda>u k. Returns None),
        stripe_prices_retrieve := (\<lambda>k p. Returns (ProductId (js ''prod_1''))),
        stripe_products_retrieve := (\<lambda>k p. Returns (Some (Product (Some p)))),
        sendgrid_profile := (\<lambda>k. Returns (Some 200)),
        fetch_get := (\<lambda>u. Returns 200),
        openai_clock := (100, 110), supabase_clock := (100, 120), stripe_clock := (100, 130),
        sendgrid_clock := (100, 140), site_clock := (100, 150)\<rparr>"

text \<open>An environment that holds every required variable.\<close>

definition fullEnv :: env where
  "fullEnv = map_of (map (\<lambda>key. (key, js ''configured'')) REQUIRED_VARS)"


definition permissionDenied :: js_error where
  "permissionDenied =
     JsError (Some (js ''EACCES: permission denied, open .env''))
             (js ''Error: EACCES: permission denied, open .env'')"

section \<open>Facts about the string operations\<close>

lemma split_not_Nil: "split s sep \<noteq> []"
  by (induction s) (auto split: list.splits)

lemma js_inj: "js a = js b \<longleftrightarrow> a = b"
  unfolding js_def by (rule inj_map_eq_map [OF inj_of_char])

lemma includes_str_single: "includes_str s [c] \<longleftrightarrow> c \<in> set s"
  by (induction s) (auto simp: startsWith_def)

lemma startsWith_single: "startsWith s [c] \<longleftrightarrow> (s \<noteq> [] \<and> hd s = c)"
  by (cases s) (auto simp: startsWith_def)


lemma split_sep:
  "sep \<in> set s \<Longrightarrow>
   split s sep = takeWhile (\<lambda>c. c \<noteq> sep) s # split (tl (dropWhile (\<lambda>c. c \<noteq> sep) s)) sep"
proof (induction s)
  case Nil
  then show ?case by simp
next
  case (Cons c cs)
  show ?case
  proof (cases "c = sep")
    case True
    then show ?thesis by simp
  next
    case False
    with Cons.prems have "sep \<in> set cs" by simp
    from Cons.IH [OF this] False show ?thesis by simp
  qed
qed

lemma join_split: "join (split s sep) sep = s"
proof (induction s)
  case Nil
  show ?case by simp
next
  case (Cons c cs)
  show ?case
  proof (cases "c = sep")
    case True
    with Cons split_not_Nil [of cs sep] show ?thesis
      by (cases "split cs sep") auto
  next
    case False
    with Cons split_not_Nil [of cs sep] show ?thesis
      by (cases "split cs sep"; cases "tl (split cs sep)") auto
  qed
qed

lemma join_tl_split:
  "sep \<in> set s \<Longrightarrow> join (tl (split s sep)) sep = tl (dropWhile (\<lambda>c. c \<noteq> sep) s)"
  by (simp add: split_sep join_split)

lemma trim_eq_Nil: "trim v = [] \<longleftrightarrow> (\<forall>c\<in>set v. isWhiteSpace c)"
proof
  assume "trim v = []"
  then have a: "\<forall>c\<in>set (dropWhile isWhiteSpace v). isWhiteSpace c"
    by (simp add: trim_def)
  have "dropWhile isWhiteSpace v = []"
  proof (rule ccontr)
    assume n: "dropWhile isWhiteSpace v \<noteq> []"
    then have "\<not> isWhiteSpace (hd (dropWhile isWhiteSpace v))" by (rule hd_dropWhile)
    moreover from n have "hd (dropWhile isWhiteSpace v) \<in> set (dropWhile isWhiteSpace v)" by simp
    ultimately show False using a by blast
  qed
  then show "\<forall>c\<in>set v. isWhiteSpace c" by simp
next
  assume "\<forall>c\<in>set v. isWhiteSpace c"
  then have d: "dropWhile isWhiteSpace v = []" by simp
  show "trim v = []" unfolding trim_def d by simp
qed






section \<open>Facts about the fallback file\<close>



lemma hd_toWellFormed:
  "s \<noteq> [] \<Longrightarrow> toWellFormed s \<noteq> [] \<and> (hd (toWellFormed s) = 0 \<longleftrightarrow> hd s = 0)"
  by (induction s rule: toWellFormed.induct) (auto simp: isHighSurrogate_def isLowSurrogate_def)

lemma cString_eq_Nil: "cString v = [] \<longleftrightarrow> v = [] \<or> hd v = 0"
proof (cases "v = []")
  case True
  then show ?thesis by (simp add: cString_def)
next
  case False
  from hd_toWellFormed [OF False] False show ?thesis
    by (cases "toWellFormed v") (auto simp: cString_def)
qed




lemma envSet_changes:
  "envSet e key v k \<noteq> e k \<Longrightarrow> k = cString key \<and> envSet e key v k = Some (cString v)"
  by (auto simp: envSet_def split: if_splits)

lemma loadLine_eq:
  "loadLine e line =
     (let t = trim line; key = takeWhile (\<lambda>c. c \<noteq> 61) t;
          val = stripQuotes (tl (dropWhile (\<lambda>c. c \<noteq> 61) t))
      in if t \<noteq> [] \<and> hd t \<noteq> 35 \<and> 61 \<in> set t \<and> key \<noteq> [] \<and> val \<noteq> [] \<and> \<not> envTruthy e key
         then envSet e key val else e)"
proof -
  have j: "js ''#'' = [35]" "js ''='' = [61]" by (simp_all add: js_def)
  show ?thesis
  proof (cases "61 \<in> set (trim line)")
    case True
    from split_sep [OF True] join_tl_split [OF True] show ?thesis
      by (auto simp: loadLine_def Let_def j includes_str_single startsWith_single)
  next
    case False
    then show ?thesis
      by (simp add: loadLine_def Let_def j includes_str_single)
  qed
qed

lemma loadLine_key_value:
  assumes "trim line = key @ 61 # rest" and "61 \<notin> set key"
  shows "loadLine e line =
     (if \<not> startsWith key (js ''#'') \<and> key \<noteq> [] \<and> stripQuotes rest \<noteq> [] \<and> \<not> envTruthy e key
      then envSet e key (stripQuotes rest) else e)"
proof -
  from assms(2) have a: "\<forall>c\<in>set key. c \<noteq> 61" by auto
  from a have t: "takeWhile (\<lambda>c. c \<noteq> 61) (key @ 61 # rest) = key" by simp
  from a have d: "dropWhile (\<lambda>c. c \<noteq> 61) (key @ 61 # rest) = 61 # rest" by simp
  have j: "js ''#'' = [35]" by (simp add: js_def)
  show ?thesis
    unfolding loadLine_eq Let_def assms(1) t d
    by (auto simp: j startsWith_single)
qed

lemma loadLine_split:
  assumes "loadLine e line \<noteq> e"
  shows "\<exists>key rest. trim line = key @ 61 # rest \<and> 61 \<notin> set key \<and> key \<noteq> []
           \<and> stripQuotes rest \<noteq> [] \<and> \<not> envTruthy e key
           \<and> loadLine e line = envSet e key (stripQuotes rest)"
proof -
  let ?t = "trim line"
  let ?key = "takeWhile (\<lambda>c. c \<noteq> 61) ?t"
  let ?d = "dropWhile (\<lambda>c. c \<noteq> 61) ?t"
  from assms have c: "61 \<in> set ?t" "?key \<noteq> []" "stripQuotes (tl ?d) \<noteq> []"
    "\<not> envTruthy e ?key" "loadLine e line = envSet e ?key (stripQuotes (tl ?d))"
    by (auto simp: loadLine_eq Let_def split: if_splits)
  from c(1) have "?d \<noteq> []" by simp
  moreover from this have "hd ?d = 61" using hd_dropWhile [of "\<lambda>c. c \<noteq> 61" ?t] by simp
  ultimately have "?d = 61 # tl ?d" by (cases ?d) simp_all
  then have "?t = ?key @ 61 # tl ?d" using takeWhile_dropWhile_id [of "\<lambda>c. c \<noteq> 61" ?t] by simp
  moreover have "61 \<notin> set ?key" by (auto dest: set_takeWhileD)
  ultimately show ?thesis using c by blast
qed

lemma loadLine_skips:
  "trim line = [] \<Longrightarrow> loadLine e line = e"
  "startsWith (trim line) (js ''#'') \<Longrightarrow> loadLine e line = e"
  "61 \<notin> set (trim line) \<Longrightarrow> loadLine e line = e"
  by (simp_all add: loadLine_def includes_str_single js_def)




lemma loadLine_empty_value:
  assumes "loadLine e line k = Some []" and "e k \<noteq> Some []"
  shows "\<exists>key rest. trim line = key @ 61 # rest \<and> 61 \<notin> set key \<and> k = cString key
           \<and> stripQuotes rest \<noteq> [] \<and> hd (stripQuotes rest) = 0"
proof -
  from assms have "loadLine e line \<noteq> e" by auto
  from loadLine_split [OF this] obtain key rest where
    s: "trim line = key @ 61 # rest" "61 \<notin> set key" "stripQuotes rest \<noteq> []"
    and l: "loadLine e line = envSet e key (stripQuotes rest)"
    by blast
  from assms l have "envSet e key (stripQuotes rest) k \<noteq> e k" by auto
  from envSet_changes [OF this]
  have k: "k = cString key" and v: "envSet e key (stripQuotes rest) k = Some (cString (stripQuotes rest))"
    by blast+
  from v assms(1) l have "cString (stripQuotes rest) = []" by simp
  with s k show ?thesis by (auto simp: cString_eq_Nil)
qed

lemma set_trim: "set (trim s) \<subseteq> set s"
proof -
  have "set (trim s) \<subseteq> set (dropWhile isWhiteSpace s)"
    unfolding trim_def using set_dropWhileD [of _ isWhiteSpace "rev (dropWhile isWhiteSpace s)"]
    by auto
  then show ?thesis by (auto dest: set_dropWhileD)
qed

lemma set_stripQuotes: "set (stripQuotes s) \<subseteq> set s"
  by (cases s) (auto simp: stripQuotes_def stripTrailingQuote_def dest: in_set_butlastD)

lemma set_split_piece: "p \<in> set (split s sep) \<Longrightarrow> set p \<subseteq> set s"
proof (induction s arbitrary: p)
  case Nil
  then show ?case by simp
next
  case (Cons c cs)
  show ?case
  proof (cases "c = sep")
    case True
    with Cons show ?thesis by auto
  next
    case False
    obtain q qs where q: "split cs sep = q # qs"
      using split_not_Nil [of cs sep] by (cases "split cs sep") auto
    with False Cons.prems have "p = c # q \<or> p \<in> set qs" by simp
    with q Cons.IH [of q] Cons.IH [of p] show ?thesis by auto
  qed
qed

lemma loadLine_no_NUL:
  assumes "0 \<notin> set line" and "loadLine e line k = Some []"
  shows "e k = Some []"
proof (rule ccontr)
  assume "e k \<noteq> Some []"
  from loadLine_empty_value [OF assms(2) this] obtain key rest where
    s: "trim line = key @ 61 # rest" "stripQuotes rest \<noteq> []" "hd (stripQuotes rest) = 0"
    by blast
  from s(2,3) have "0 \<in> set (stripQuotes rest)" by (cases "stripQuotes rest") auto
  with set_stripQuotes [of rest] have "0 \<in> set rest" by auto
  with s(1) have "0 \<in> set (trim line)" by simp
  with set_trim [of line] assms(1) show False by auto
qed

lemma foldl_loadLine_no_NUL:
  "\<forall>l\<in>set ls. 0 \<notin> set l \<Longrightarrow> foldl loadLine e ls k = Some [] \<Longrightarrow> e k = Some []"
proof (induction ls arbitrary: e)
  case Nil
  then show ?case by simp
next
  case (Cons l ls)
  from Cons.prems have "foldl loadLine (loadLine e l) ls k = Some []" by simp
  with Cons.IH [of "loadLine e l"] Cons.prems(1) have "loadLine e l k = Some []" by simp
  with Cons.prems(1) loadLine_no_NUL [of l e k] show ?case by simp
qed

lemma loadEnvFromFile_no_NUL:
  assumes "0 \<notin> set content" and "loadEnvFromFile (Content content) e = Returns e'"
    and "e' k = Some []"
  shows "e k = Some []"
proof -
  from assms(1) have "\<forall>l\<in>set (split content 10). 0 \<notin> set l"
    using set_split_piece [of _ content 10] by blast
  with assms(2,3) show ?thesis
    by (auto simp: loadEnvFromFile_def dest: foldl_loadLine_no_NUL)
qed

section \<open>Facts about the hosting CLI and the resolution\<close>



lemma loadEnvFromNetlify_returns:
  "\<exists>b e1. loadEnvFromNetlify w e = Returns (b, e1)"
  by (auto simp: loadEnvFromNetlify_def split: prod.splits)



lemma mapEnvVars_no_alias:
  "\<not> truthy (e (js ''STRIPE_PUBLIC_KEY'')) \<Longrightarrow> \<not> truthy (e (js ''STRIPE_PRICE_ID''))
   \<Longrightarrow> mapEnvVars e = e"
  by (simp add: mapEnvVars_def)

lemma resolveEnv_no_sources:
  "\<not> isLinked w \<Longrightarrow> dotenv_file w = Absent \<Longrightarrow> resolveEnv w e = Returns (mapEnvVars e)"
  by (simp add: resolveEnv_def loadEnvFromNetlify_def loadEnvFromFile_def)


lemma present_iff: "present e k \<longleftrightarrow> (\<exists>v. e k = Some v \<and> (\<exists>c\<in>set v. \<not> isWhiteSpace c))"
  by (auto simp: present_def trim_eq_Nil split: option.splits)

section \<open>Facts about the probes and the report\<close>

lemma checkOpenAI_returns: "\<exists>r. checkOpenAI w e = Returns r"
  by (simp add: checkOpenAI_def tryCatch_def failed_def Let_def split: outcome.splits)

lemma checkSupabase_returns: "\<exists>r. checkSupabase w e = Returns r"
  by (simp add: checkSupabase_def tryCatch_def failed_def split: outcome.splits option.splits)

lemma checkStripe_returns: "\<exists>r. checkStripe w e = Returns r"
  by (simp add: checkStripe_def tryCatch_def failed_def Let_def
      split: outcome.splits product_ref.splits)

lemma checkSendGrid_returns: "\<exists>r. checkSendGrid w e = Returns r"
  by (simp add: checkSendGrid_def tryCatch_def failed_def Let_def split: outcome.splits)

lemma checkSiteUrl_returns: "\<exists>r. checkSiteUrl w e = Returns r"
  by (simp add: checkSiteUrl_def tryCatch_def failed_def split: outcome.splits)


lemma runChecks_five:
  "\<exists>r1 r2 r3 r4 r5.
     checkOpenAI w e = Returns r1 \<and> checkSupabase w e = Returns r2 \<and> checkStripe w e = Returns r3
     \<and> checkSendGrid w e = Returns r4 \<and> checkSiteUrl w e = Returns r5
     \<and> runChecks w e = Returns [r1, r2, r3, r4, r5]"
proof -
  obtain r1 r2 r3 r4 r5 where
    "checkOpenAI w e = Returns r1" "checkSupabase w e = Returns r2" "checkStripe w e = Returns r3"
    "checkSendGrid w e = Returns r4" "checkSiteUrl w e = Returns r5"
    using checkOpenAI_returns checkSupabase_returns checkStripe_returns checkSendGrid_returns
      checkSiteUrl_returns by metis
  then show ?thesis by (simp add: runChecks_def)
qed

lemma missing_Nil: "length (map fst (filter (\<lambda>(k, p). \<not> p) (logEnvStatus e))) = 0
  \<longleftrightarrow> list_all (present e) REQUIRED_VARS"
  by (simp add: logEnvStatus_def filter_empty_conv list_all_iff)

lemma Math_round_nearest: "\<bar>of_int (Math_round x) - x\<bar> \<le> \<bar>of_int m - x\<bar>"
proof -
  define n where "n = \<lfloor>x + 1 / 2\<rfloor>"
  have lo: "of_int n \<le> x + 1 / 2" and hi: "x + 1 / 2 < of_int n + 1"
    unfolding n_def by linarith+
  show ?thesis
  proof (cases "m \<le> n")
    case True
    show ?thesis
    proof (cases "m = n")
      case True
      then show ?thesis by (simp add: Math_round_def n_def)
    next
      case False
      with \<open>m \<le> n\<close> have "m \<le> n - 1" by simp
      then have "(of_int m :: rat) \<le> of_int n - 1" by (metis of_int_le_iff of_int_diff of_int_1)
      with lo hi show ?thesis unfolding Math_round_def n_def [symmetric] by linarith
    qed
  next
    case False
    then have "n + 1 \<le> m" by simp
    then have "(of_int n :: rat) + 1 \<le> of_int m" by (metis of_int_le_iff of_int_add of_int_1)
    with lo hi show ?thesis unfolding Math_round_def n_def [symmetric] by linarith
  qed
qed

lemma Math_round_quotient:
  assumes "0 < n"
  shows "Math_round (of_int s / of_int n) = (2 * s + n) div (2 * n)"
proof -
  from assms have "(of_int s :: rat) / of_int n + 1 / 2 = of_int (2 * s + n) / of_int (2 * n)"
    by (simp add: field_simps)
  then show ?thesis
    unfolding Math_round_def by (simp only: floor_divide_of_int_eq)
qed

lemma averageTime_five:
  "averageTime [a, b, c, d, f] = Math_round (of_int (ms a + ms b + ms c + ms d + ms f) / 5)"
  by (simp add: averageTime_def)

lemma averageTime_five_div:
  "averageTime [a, b, c, d, f] = (2 * (ms a + ms b + ms c + ms d + ms f) + 5) div 10"
  using Math_round_quotient [of 5 "ms a + ms b + ms c + ms d + ms f"]
  by (simp add: averageTime_five)

lemma report_returns:
  "\<exists>r1 r2 r3 r4 r5.
     checkOpenAI w e = Returns r1 \<and> checkSupabase w e = Returns r2 \<and> checkStripe w e = Returns r3
     \<and> checkSendGrid w e = Returns r4 \<and> checkSiteUrl w e = Returns r5
     \<and> report w e =
         Returns \<lparr>envStatus = logEnvStatus e, checks = [r1, r2, r3, r4, r5],
                   avgTime = averageTime [r1, r2, r3, r4, r5],
                   missingKeys = map fst (filter (\<lambda>(k, p). \<not> p) (logEnvStatus e)),
                   exitCode = (if list_all (present e) REQUIRED_VARS
                                  \<and> ok r1 \<and> ok r2 \<and> ok r3 \<and> ok r4 \<and> ok r5 then 0 else 1)\<rparr>"
proof -
  from runChecks_five [of w e] obtain r1 r2 r3 r4 r5 where
    c: "checkOpenAI w e = Returns r1" "checkSupabase w e = Returns r2" "checkStripe w e = Returns r3"
    "checkSendGrid w e = Returns r4" "checkSiteUrl w e = Returns r5"
    and r: "runChecks w e = Returns [r1, r2, r3, r4, r5]"
    by blast
  have "report w e =
         Returns \<lparr>envStatus = logEnvStatus e, checks = [r1, r2, r3, r4, r5],
                   avgTime = averageTime [r1, r2, r3, r4, r5],
                   missingKeys = map fst (filter (\<lambda>(k, p). \<not> p) (logEnvStatus e)),
                   exitCode = (if list_all (present e) REQUIRED_VARS
                                  \<and> ok r1 \<and> ok r2 \<and> ok r3 \<and> ok r4 \<and> ok r5 then 0 else 1)\<rparr>"
    unfolding report_def Let_def r using missing_Nil [of e] by simp
  with c show ?thesis by blast
qed

lemma processExit_cases:
  "processExit w e0 =
     (case resolveEnv w e0 of
        Throws err \<Rightarrow> 1
      | Returns e \<Rightarrow>
          (case report w e of Throws err \<Rightarrow> 1 | Returns r \<Rightarrow> exitCode r))"
  by (simp add: processExit_def main_def split: outcome.splits)

lemma missing_filter_list:
  "map fst (filter (\<lambda>(k, p). \<not> p) (map (\<lambda>key. (key, f key)) ks)) = filter (\<lambda>key. \<not> f key) ks"
  by (induction ks) simp_all

lemma missing_filter:
  "map fst (filter (\<lambda>(k, p). \<not> p) (logEnvStatus e)) = filter (\<lambda>key. \<not> present e key) REQUIRED_VARS"
  unfolding logEnvStatus_def by (rule missing_filter_list)

lemma main_returns:
  assumes "resolveEnv w e0 = Returns e"
  shows "\<exists>r. main w e0 = Returns r \<and> envStatus r = logEnvStatus e
           \<and> missingKeys r = filter (\<lambda>key. \<not> present e key) REQUIRED_VARS
           \<and> (\<not> list_all (present e) REQUIRED_VARS \<longrightarrow> exitCode r = 1)"
  using report_returns [of w e] assms by (auto simp: main_def missing_filter)

section \<open>Facts about the example runs\<close>

lemma isLinked_offline: "isLinked offline = False" "isLinked online = False"
  by (simp_all add: isLinked_def autoLink_def offline_def online_def)

lemma dotenv_online: "dotenv_file online = Absent" "dotenv_file offline = Absent"
  by (simp_all add: online_def offline_def)

lemma fullEnv_apply:
  "fullEnv k = (if k \<in> set REQUIRED_VARS then Some (js ''configured'') else None)"
  by (simp add: fullEnv_def map_of_map_restrict restrict_map_def)

lemma required_aliases:
  "js ''STRIPE_PUBLIC_KEY'' \<notin> set REQUIRED_VARS" "js ''STRIPE_PRICE_ID'' \<notin> set REQUIRED_VARS"
  by (simp_all add: REQUIRED_VARS_def js_inj)

lemma online_checks:
  "checkOpenAI online e = Returns \<lparr>ok = True, ms = 10, detail = js ''OK''\<rparr>"
  "checkSupabase online e = Returns \<lparr>ok = True, ms = 20, detail = js ''Inserted dummy record''\<rparr>"
  "checkStripe online e = Returns \<lparr>ok = True, ms = 30, detail = js ''Product prod_1''\<rparr>"
  "checkSendGrid online e = Returns \<lparr>ok = True, ms = 40, detail = js ''Email API reachable''\<rparr>"
  "checkSiteUrl online e = Returns \<lparr>ok = True, ms = 50, detail = js ''HTTP 200''\<rparr>"
      apply (simp add: checkOpenAI_def online_def offline_def tryCatch_def elapsed_def js_def)
     apply (simp add: checkSupabase_def online_def offline_def tryCatch_def elapsed_def)
    apply (simp add: checkStripe_def online_def offline_def tryCatch_def elapsed_def truthy_def js_def)
   apply (simp add: checkSendGrid_def online_def offline_def tryCatch_def elapsed_def)
  apply (simp add: checkSiteUrl_def online_def offline_def tryCatch_def elapsed_def js_def
      numberToString_def digits.simps)
  done

lemma report_online:
  "report online e =
     Returns \<lparr>envStatus = logEnvStatus e,
       checks = [\<lparr>ok = True, ms = 10, detail = js ''OK''\<rparr>,
                 \<lparr>ok = True, ms = 20, detail = js ''Inserted dummy record''\<rparr>,
                 \<lparr>ok = True, ms = 30, detail = js ''Product prod_1''\<rparr>,
                 \<lparr>ok = True, ms = 40, detail = js ''Email API reachable''\<rparr>,
                 \<lparr>ok = True, ms = 50, detail = js ''HTTP 200''\<rparr>],
       avgTime = 30,
       missingKeys = map fst (filter (\<lambda>(k, p). \<not> p) (logEnvStatus e)),
       exitCode = (if list_all (present e) REQUIRED_VARS then 0 else 1)\<rparr>"
  using report_returns [of online e]
  by (auto simp: online_checks averageTime_five_div)

lemma list_all_present_fullEnv: "list_all (present fullEnv) REQUIRED_VARS"
proof -
  have "trim (js ''configured'') \<noteq> []"
    by (simp add: trim_eq_Nil js_def isWhiteSpace_def)
  moreover have "js ''configured'' \<noteq> []" by (simp add: js_def)
  ultimately show ?thesis by (simp add: list_all_iff present_def fullEnv_apply)
qed

lemma resolveEnv_fullEnv: "resolveEnv online fullEnv = Returns fullEnv"
  "resolveEnv offline fullEnv = Returns fullEnv"
proof -
  have "mapEnvVars fullEnv = fullEnv"
    by (rule mapEnvVars_no_alias) (simp_all add: fullEnv_apply required_aliases truthy_def)
  then show "resolveEnv online fullEnv = Returns fullEnv"
    "resolveEnv offline fullEnv = Returns fullEnv"
    by (simp_all add: resolveEnv_no_sources isLinked_offline dotenv_online)
qed

lemma checkOpenAI_offline:
  "checkOpenAI offline e = Returns \<lparr>ok = False, ms = 0, detail = js ''Command failed''\<rparr>"
  by (simp add: checkOpenAI_def offline_def tryCatch_def failed_def elapsed_def errorDetail_def
      commandFailed_def js_def)



section \<open>The claims\<close>

text \<open>
  Claim C1. The process exits with code 0 exactly when resolution completes, each of the ten
  required variables is present in the resolved environment and each of the five probes
  reports success; in every other case it exits with code 1.
\<close>

theorem exit_code_zero_iff_all_pass:
  "(processExit w e0 = 0 \<longleftrightarrow>
      (\<exists>e r1 r2 r3 r4 r5.
         resolveEnv w e0 = Returns e \<and> (\<forall>k\<in>set REQUIRED_VARS. present e k)
         \<and> checkOpenAI w e = Returns r1 \<and> ok r1 \<and> checkSupabase w e = Returns r2 \<and> ok r2
         \<and> checkStripe w e = Returns r3 \<and> ok r3 \<and> checkSendGrid w e = Returns r4 \<and> ok r4
         \<and> checkSiteUrl w e = Returns r5 \<and> ok r5))
   \<and> (processExit w e0 \<noteq> 0 \<longrightarrow> processExit w e0 = 1)
   \<and> length REQUIRED_VARS = 10"
proof (cases "resolveEnv w e0")
  case (Throws err)
  then show ?thesis by (simp add: processExit_cases REQUIRED_VARS_def)
next
  case (Returns e)
  from report_returns [of w e] obtain r1 r2 r3 r4 r5 where
    c: "checkOpenAI w e = Returns r1" "checkSupabase w e = Returns r2" "checkStripe w e = Returns r3"
    "checkSendGrid w e = Returns r4" "checkSiteUrl w e = Returns r5"
    and x: "processExit w e0 = (if list_all (present e) REQUIRED_VARS
                                  \<and> ok r1 \<and> ok r2 \<and> ok r3 \<and> ok r4 \<and> ok r5 then 0 else 1)"
    by (auto simp: processExit_cases Returns)
  from Returns c x show ?thesis by (auto simp: list_all_iff REQUIRED_VARS_def)
qed

theorem exit_code_zero_iff_all_pass_witness:
  "processExit online fullEnv = 0 \<and> processExit offline fullEnv = 1"
proof -
  have p: "\<forall>k\<in>set REQUIRED_VARS. present fullEnv k"
    using list_all_present_fullEnv by (simp add: list_all_iff)
  from exit_code_zero_iff_all_pass [of online fullEnv] p
  have "processExit online fullEnv = 0"
    by (simp add: resolveEnv_fullEnv online_checks)
  moreover from exit_code_zero_iff_all_pass [of offline fullEnv]
  have "processExit offline fullEnv = 1"
    by (simp add: resolveEnv_fullEnv checkOpenAI_offline)
  ultimately show ?thesis by simp
qed

text \<open>
  Claim C2. Whatever the five services do, each probe gives a Check Result and the runner
  returns exactly five results, the result of each probe in its place. Replacing the
  outcome of one probe's service by any other, a failure included, leaves the run with
  five results and the other four as they were.
\<close>

theorem runner_returns_five_results:
  "\<exists>r1 r2 r3 r4 r5.
     runChecks w e = Returns [r1, r2, r3, r4, r5] \<and> length [r1, r2, r3, r4, r5] = 5
     \<and> checkOpenAI w e = Returns r1 \<and> checkSupabase w e = Returns r2
     \<and> checkStripe w e = Returns r3 \<and> checkSendGrid w e = Returns r4
     \<and> checkSiteUrl w e = Returns r5
     \<and> (\<forall>f. \<exists>r. runChecks (w\<lparr>openai_create := f\<rparr>) e = Returns [r, r2, r3, r4, r5])
     \<and> (\<forall>f. \<exists>r. runChecks (w\<lparr>supabase_insert := f\<rparr>) e = Returns [r1, r, r3, r4, r5])
     \<and> (\<forall>f g. \<exists>r. runChecks (w\<lparr>stripe_prices_retrieve := f, stripe_products_retrieve := g\<rparr>) e
            = Returns [r1, r2, r, r4, r5])
     \<and> (\<forall>f. \<exists>r. runChecks (w\<lparr>sendgrid_profile := f\<rparr>) e = Returns [r1, r2, r3, r, r5])
     \<and> (\<forall>f. \<exists>r. runChecks (w\<lparr>fetch_get := f\<rparr>) e = Returns [r1, r2, r3, r4, r])"
proof -
  from runChecks_five [of w e] obtain r1 r2 r3 r4 r5 where
    c: "checkOpenAI w e = Returns r1" "checkSupabase w e = Returns r2" "checkStripe w e = Returns r3"
    "checkSendGrid w e = Returns r4" "checkSiteUrl w e = Returns r5"
    and r: "runChecks w e = Returns [r1, r2, r3, r4, r5]"
    by blast
  have other:
    "checkSupabase (w\<lparr>openai_create := f1\<rparr>) e = checkSupabase w e"
    "checkStripe (w\<lparr>openai_create := f1\<rparr>) e = checkStripe w e"
    "checkSendGrid (w\<lparr>openai_create := f1\<rparr>) e = checkSendGrid w e"
    "checkSiteUrl (w\<lparr>openai_create := f1\<rparr>) e = checkSiteUrl w e"
    "checkOpenAI (w\<lparr>supabase_insert := f2\<rparr>) e = checkOpenAI w e"
    "checkStripe (w\<lparr>supabase_insert := f2\<rparr>) e = checkStripe w e"
    "checkSendGrid (w\<lparr>supabase_insert := f2\<rparr>) e = checkSendGrid w e"
    "checkSiteUrl (w\<lparr>supabase_insert := f2\<rparr>) e = checkSiteUrl w e"
    "checkOpenAI (w\<lparr>stripe_prices_retrieve := f3, stripe_products_retrieve := g3\<rparr>) e = checkOpenAI w e"
    "checkSupabase (w\<lparr>stripe_prices_retrieve := f3, stripe_products_retrieve := g3\<rparr>) e = checkSupabase w e"
    "checkSendGrid (w\<lparr>stripe_prices_retrieve := f3, stripe_products_retrieve := g3\<rparr>) e = checkSendGrid w e"
    "checkSiteUrl (w\<lparr>stripe_prices_retrieve := f3, stripe_products_retrieve := g3\<rparr>) e = checkSiteUrl w e"
    "checkOpenAI (w\<lparr>sendgrid_profile := f4\<rparr>) e = checkOpenAI w e"
    "checkSupabase (w\<lparr>sendgrid_profile := f4\<rparr>) e = checkSupabase w e"
    "checkStripe (w\<lparr>sendgrid_profile := f4\<rparr>) e = checkStripe w e"
    "checkSiteUrl (w\<lparr>sendgrid_profile := f4\<rparr>) e = checkSiteUrl w e"
    "checkOpenAI (w\<lparr>fetch_get := f5\<rparr>) e = checkOpenAI w e"
    "checkSupabase (w\<lparr>fetch_get := f5\<rparr>) e = checkSupabase w e"
    "checkStripe (w\<lparr>fetch_get := f5\<rparr>) e = checkStripe w e"
    "checkSendGrid (w\<lparr>fetch_get := f5\<rparr>) e = checkSendGrid w e"
    for f1 f2 f3 g3 f4 f5
    by (simp_all add: checkOpenAI_def checkSupabase_def checkStripe_def checkSendGrid_def
        checkSiteUrl_def
        cong: outcome.case_cong option.case_cong product_ref.case_cong)
  have a: "\<exists>r. runChecks (w\<lparr>openai_create := f\<rparr>) e = Returns [r, r2, r3, r4, r5]" for f
    using checkOpenAI_returns [of "w\<lparr>openai_create := f\<rparr>" e] c
    by (auto simp: runChecks_def other)
  have b: "\<exists>r. runChecks (w\<lparr>supabase_insert := f\<rparr>) e = Returns [r1, r, r3, r4, r5]" for f
    using checkSupabase_returns [of "w\<lparr>supabase_insert := f\<rparr>" e] c
    by (auto simp: runChecks_def other)
  have d: "\<exists>r. runChecks (w\<lparr>stripe_prices_retrieve := f, stripe_products_retrieve := g\<rparr>) e
            = Returns [r1, r2, r, r4, r5]" for f g
    using checkStripe_returns [of "w\<lparr>stripe_prices_retrieve := f, stripe_products_retrieve := g\<rparr>" e] c
    by (auto simp: runChecks_def other)
  have g: "\<exists>r. runChecks (w\<lparr>sendgrid_profile := f\<rparr>) e = Returns [r1, r2, r3, r, r5]" for f
    using checkSendGrid_returns [of "w\<lparr>sendgrid_profile := f\<rparr>" e] c
    by (auto simp: runChecks_def other)
  have h: "\<exists>r. runChecks (w\<lparr>fetch_get := f\<rparr>) e = Returns [r1, r2, r3, r4, r]" for f
    using checkSiteUrl_returns [of "w\<lparr>fetch_get := f\<rparr>" e] c
    by (auto simp: runChecks_def other)
  from c r a b d g h show ?thesis by simp
qed

text \<open>
  Claim C3, on the code. The loader of the hosting CLI never throws, and resolution
  completes whenever the fallback file is absent or readable. The loader of the fallback
  file reads it outside any \<^verbatim>\<open>try\<close> block: when the CLI loaded nothing and the file
  is there but cannot be read, the exception of \<^verbatim>\<open>readFileSync\<close> leaves
  \<^verbatim>\<open>loadEnvFromFile\<close> and \<^verbatim>\<open>main\<close>, no check runs, and the process exits with code 1
  from the handler of \<^verbatim>\<open>main().catch\<close>.
\<close>

theorem unreadable_fallback_file_leaves_main:
  "(\<exists>b e1. loadEnvFromNetlify w e = Returns (b, e1))
   \<and> ((\<forall>err. dotenv_file w \<noteq> Unreadable err) \<longrightarrow> (\<exists>e'. resolveEnv w e = Returns e'))
   \<and> (loadEnvFromNetlify w e = Returns (False, e1) \<and> dotenv_file w = Unreadable err
        \<longrightarrow> loadEnvFromFile (dotenv_file w) e1 = Throws err \<and> resolveEnv w e = Throws err
            \<and> main w e = Throws err \<and> processExit w e = 1)"
proof (intro conjI impI)
  show "\<exists>b e1. loadEnvFromNetlify w e = Returns (b, e1)" by (rule loadEnvFromNetlify_returns)
next
  assume "\<forall>err. dotenv_file w \<noteq> Unreadable err"
  with loadEnvFromNetlify_returns [of w e] show "\<exists>e'. resolveEnv w e = Returns e'"
    by (cases "dotenv_file w") (auto simp: resolveEnv_def loadEnvFromFile_def)
next
  assume a: "loadEnvFromNetlify w e = Returns (False, e1) \<and> dotenv_file w = Unreadable err"
  then show f: "loadEnvFromFile (dotenv_file w) e1 = Throws err" by (simp add: loadEnvFromFile_def)
  with a show r: "resolveEnv w e = Throws err" by (simp add: resolveEnv_def)
  then show "main w e = Throws err" by (simp add: main_def)
  then show "processExit w e = 1" by (simp add: processExit_def)
qed

theorem unreadable_fallback_file_leaves_main_witness:
  "main (offline\<lparr>dotenv_file := Unreadable permissionDenied\<rparr>) fullEnv = Throws permissionDenied
   \<and> processExit (offline\<lparr>dotenv_file := Unreadable permissionDenied\<rparr>) fullEnv = 1"
proof -
  let ?w = "offline\<lparr>dotenv_file := Unreadable permissionDenied\<rparr>"
  have "\<not> isLinked ?w" by (simp add: isLinked_def autoLink_def offline_def)
  then have n: "loadEnvFromNetlify ?w fullEnv = Returns (False, fullEnv)"
    by (simp add: loadEnvFromNetlify_def)
  have d: "dotenv_file ?w = Unreadable permissionDenied" by simp
  from unreadable_fallback_file_leaves_main [of ?w fullEnv fullEnv permissionDenied] n d
  show ?thesis by blast
qed




text \<open>
  Claim C5, as amended. \<^verbatim>\<open>mapEnvVars\<close> tests both names for truth, so an empty
  string counts as no value. For each alias pair: when the alias holds a non-empty value
  and the canonical name is absent or empty, the canonical name gets the alias's value;
  when the canonical name holds a non-empty value it is left unchanged. No other
  variable changes.
\<close>

theorem alias_fills_canonical_without_value:
  "(truthy (e (js ''STRIPE_PUBLIC_KEY'')) \<and> \<not> truthy (e (js ''STRIPE_PUBLISHABLE_KEY''))
      \<longrightarrow> mapEnvVars e (js ''STRIPE_PUBLISHABLE_KEY'') = e (js ''STRIPE_PUBLIC_KEY''))
   \<and> (truthy (e (js ''STRIPE_PRICE_ID'')) \<and> \<not> truthy (e (js ''STRIPE_PRICE_RESPONSE''))
      \<longrightarrow> mapEnvVars e (js ''STRIPE_PRICE_RESPONSE'') = e (js ''STRIPE_PRICE_ID''))
   \<and> (truthy (e (js ''STRIPE_PUBLISHABLE_KEY''))
      \<longrightarrow> mapEnvVars e (js ''STRIPE_PUBLISHABLE_KEY'') = e (js ''STRIPE_PUBLISHABLE_KEY''))
   \<and> (truthy (e (js ''STRIPE_PRICE_RESPONSE''))
      \<longrightarrow> mapEnvVars e (js ''STRIPE_PRICE_RESPONSE'') = e (js ''STRIPE_PRICE_RESPONSE''))
   \<and> (k \<noteq> js ''STRIPE_PUBLISHABLE_KEY'' \<and> k \<noteq> js ''STRIPE_PRICE_RESPONSE''
      \<longrightarrow> mapEnvVars e k = e k)"
  by (auto simp: mapEnvVars_def Let_def js_inj)

theorem alias_fills_canonical_without_value_witness:
  "mapEnvVars [js ''STRIPE_PUBLIC_KEY'' \<mapsto> js ''pk_live_1'', js ''STRIPE_PRICE_ID'' \<mapsto> js ''price_1'']
     (js ''STRIPE_PUBLISHABLE_KEY'') = Some (js ''pk_live_1'')
   \<and> mapEnvVars [js ''STRIPE_PUBLIC_KEY'' \<mapsto> js ''pk_live_1'', js ''STRIPE_PRICE_ID'' \<mapsto> js ''price_1'']
     (js ''STRIPE_PRICE_RESPONSE'') = Some (js ''price_1'')
   \<and> mapEnvVars [js ''STRIPE_PUBLIC_KEY'' \<mapsto> js ''pk_live_1'', js ''STRIPE_PUBLISHABLE_KEY'' \<mapsto> js ''pk_live_2'']
     (js ''STRIPE_PUBLISHABLE_KEY'') = Some (js ''pk_live_2'')
   \<and> mapEnvVars [js ''STRIPE_PRICE_ID'' \<mapsto> js ''price_1'', js ''STRIPE_PRICE_RESPONSE'' \<mapsto> js ''price_2'']
     (js ''STRIPE_PRICE_RESPONSE'') = Some (js ''price_2'')
   \<and> mapEnvVars [js ''STRIPE_PUBLIC_KEY'' \<mapsto> js ''pk_live_1'', js ''STRIPE_PRICE_ID'' \<mapsto> js ''price_1'']
     (js ''STRIPE_PUBLIC_KEY'') = Some (js ''pk_live_1'')"
proof -
  have n: "js ''pk_live_1'' \<noteq> []" "js ''price_1'' \<noteq> []" "js ''pk_live_2'' \<noteq> []"
    "js ''price_2'' \<noteq> []"
    by (simp_all add: js_def)
  let ?a = "[js ''STRIPE_PUBLIC_KEY'' \<mapsto> js ''pk_live_1'', js ''STRIPE_PRICE_ID'' \<mapsto> js ''price_1'']"
  let ?b = "[js ''STRIPE_PUBLIC_KEY'' \<mapsto> js ''pk_live_1'', js ''STRIPE_PUBLISHABLE_KEY'' \<mapsto> js ''pk_live_2'']"
  let ?c = "[js ''STRIPE_PRICE_ID'' \<mapsto> js ''price_1'', js ''STRIPE_PRICE_RESPONSE'' \<mapsto> js ''price_2'']"
  from alias_fills_canonical_without_value [of ?a "js ''STRIPE_PUBLIC_KEY''"]
    alias_fills_canonical_without_value [of ?b "js ''STRIPE_PUBLIC_KEY''"]
    alias_fills_canonical_without_value [of ?c "js ''STRIPE_PUBLIC_KEY''"] n
  show ?thesis by (simp add: truthy_def js_inj)
qed

text \<open>
  The claim as stated fails where the canonical name is set to the empty string: it is
  set, and the alias's value replaces it.
\<close>

theorem alias_overwrites_empty_canonical_counterexample:
  "[js ''STRIPE_PUBLISHABLE_KEY'' \<mapsto> [], js ''STRIPE_PUBLIC_KEY'' \<mapsto> js ''pk_live_1'']
     (js ''STRIPE_PUBLISHABLE_KEY'') = Some []
   \<and> mapEnvVars [js ''STRIPE_PUBLISHABLE_KEY'' \<mapsto> [], js ''STRIPE_PUBLIC_KEY'' \<mapsto> js ''pk_live_1'']
     (js ''STRIPE_PUBLISHABLE_KEY'') = Some (js ''pk_live_1'')"
  by (simp add: mapEnvVars_def truthy_def js_inj)






text \<open>
  Claim C8. The reported average is the mean of the five probes' elapsed times rounded
  to the nearest integer: no integer is closer to the mean. For the elapsed times
  10, 20, 30, 40 and 50 it is 30.
\<close>

theorem average_is_mean_rounded_to_nearest:
  "report w e = Returns r \<Longrightarrow>
     length (checks r) = 5
     \<and> \<bar>rat_of_int (avgTime r) - rat_of_int (sum_list (map ms (checks r))) / 5\<bar>
         \<le> \<bar>rat_of_int m - rat_of_int (sum_list (map ms (checks r))) / 5\<bar>
     \<and> (map ms (checks r) = [10, 20, 30, 40, 50] \<longrightarrow> avgTime r = 30)"
proof -
  assume a: "report w e = Returns r"
  from report_returns [of w e] a obtain r1 r2 r3 r4 r5 where
    c: "checks r = [r1, r2, r3, r4, r5]" and v: "avgTime r = averageTime [r1, r2, r3, r4, r5]"
    by auto
  have s: "sum_list (map ms (checks r)) = ms r1 + ms r2 + ms r3 + ms r4 + ms r5"
    by (simp add: c)
  have "\<bar>rat_of_int (avgTime r) - rat_of_int (sum_list (map ms (checks r))) / 5\<bar>
         \<le> \<bar>rat_of_int m - rat_of_int (sum_list (map ms (checks r))) / 5\<bar>"
    unfolding v averageTime_five s by (rule Math_round_nearest)
  moreover have "avgTime r = 30" if "map ms (checks r) = [10, 20, 30, 40, 50]"
  proof -
    from that c have "ms r1 = 10" "ms r2 = 20" "ms r3 = 30" "ms r4 = 40" "ms r5 = 50" by simp_all
    then show ?thesis by (simp add: v averageTime_five_div)
  qed
  ultimately show ?thesis using c by simp
qed

theorem average_is_mean_rounded_to_nearest_witness:
  "(case report online fullEnv of
      Returns r \<Rightarrow> map ms (checks r) = [10, 20, 30, 40, 50] \<and> avgTime r = 30
    | Throws err \<Rightarrow> False)"
proof -
  obtain r where r: "report online fullEnv = Returns r"
    and m: "map ms (checks r) = [10, 20, 30, 40, 50]"
    by (simp add: report_online)
  from average_is_mean_rounded_to_nearest [OF r, of 30] m have "avgTime r = 30" by blast
  with r m show ?thesis by simp
qed

text \<open>
  Claim C9. The presence flag of a key is true exactly when the variable has a value
  with at least one code unit that is not white space. The status map holds each
  required variable, in the declared order, with its presence flag. A required variable
  whose value after resolution consists of white space only is reported as missing: the
  status map of the run holds it with the flag false, it is in the list of missing keys,
  and the process exits with code 1.
\<close>

theorem whitespace_only_value_is_missing:
  "(present e k \<longleftrightarrow> (\<exists>v. e k = Some v \<and> (\<exists>c\<in>set v. \<not> isWhiteSpace c)))
   \<and> map fst (logEnvStatus e) = REQUIRED_VARS
   \<and> map snd (logEnvStatus e) = map (present e) REQUIRED_VARS
   \<and> (resolveEnv w e0 = Returns e \<and> k \<in> set REQUIRED_VARS \<and> e k = Some v
        \<and> (\<forall>c\<in>set v. isWhiteSpace c)
       \<longrightarrow> \<not> present e k
           \<and> (\<exists>r. main w e0 = Returns r \<and> envStatus r = logEnvStatus e
                  \<and> (k, False) \<in> set (envStatus r) \<and> (k, True) \<notin> set (envStatus r)
                  \<and> missingKeys r = filter (\<lambda>key. \<not> present e key) REQUIRED_VARS
                  \<and> k \<in> set (missingKeys r) \<and> exitCode r = 1)
           \<and> processExit w e0 = 1)"
proof (intro conjI impI)
  show "present e k \<longleftrightarrow> (\<exists>v. e k = Some v \<and> (\<exists>c\<in>set v. \<not> isWhiteSpace c))"
    by (rule present_iff)
next
  show "map fst (logEnvStatus e) = REQUIRED_VARS"
    by (simp add: logEnvStatus_def comp_def)
next
  show "map snd (logEnvStatus e) = map (present e) REQUIRED_VARS"
    by (simp add: logEnvStatus_def comp_def)
next
  assume a: "resolveEnv w e0 = Returns e \<and> k \<in> set REQUIRED_VARS \<and> e k = Some v
    \<and> (\<forall>c\<in>set v. isWhiteSpace c)"
  then show np: "\<not> present e k" by (simp add: present_iff)
  from a np have na: "\<not> list_all (present e) REQUIRED_VARS" by (auto simp: list_all_iff)
  from a main_returns [of w e0 e] na obtain r where
    r: "main w e0 = Returns r" "envStatus r = logEnvStatus e"
    "missingKeys r = filter (\<lambda>key. \<not> present e key) REQUIRED_VARS" "exitCode r = 1"
    by blast
  from a np have s: "(k, False) \<in> set (logEnvStatus e)" "(k, True) \<notin> set (logEnvStatus e)"
    by (auto simp: logEnvStatus_def)
  from a np r(3) have "k \<in> set (missingKeys r)" by simp
  with r s show "\<exists>r. main w e0 = Returns r \<and> envStatus r = logEnvStatus e
                  \<and> (k, False) \<in> set (envStatus r) \<and> (k, True) \<notin> set (envStatus r)
                  \<and> missingKeys r = filter (\<lambda>key. \<not> present e key) REQUIRED_VARS
                  \<and> k \<in> set (missingKeys r) \<and> exitCode r = 1"
    by auto
  from r show "processExit w e0 = 1" by (simp add: processExit_def)
qed

theorem whitespace_only_value_is_missing_witness:
  "\<not> present (fullEnv(js ''SITE_URL'' \<mapsto> js ''  '')) (js ''SITE_URL'')
   \<and> (case main online (fullEnv(js ''SITE_URL'' \<mapsto> js ''  '')) of
        Returns r \<Rightarrow> missingKeys r = [js ''SITE_URL'']
          \<and> (js ''SITE_URL'', False) \<in> set (envStatus r) \<and> exitCode r = 1
      | Throws err \<Rightarrow> False)
   \<and> processExit online (fullEnv(js ''SITE_URL'' \<mapsto> js ''  '')) = 1"
proof -
  let ?e = "fullEnv(js ''SITE_URL'' \<mapsto> js ''  '')"
  have "mapEnvVars ?e = ?e"
    by (rule mapEnvVars_no_alias) (simp_all add: fullEnv_apply required_aliases js_inj truthy_def)
  then have r: "resolveEnv online ?e = Returns ?e"
    by (simp add: resolveEnv_no_sources isLinked_offline dotenv_online)
  have k: "js ''SITE_URL'' \<in> set REQUIRED_VARS" by (simp add: REQUIRED_VARS_def)
  have v: "?e (js ''SITE_URL'') = Some (js ''  '')" by simp
  have s: "\<forall>c\<in>set (js ''  ''). isWhiteSpace c" by (simp add: js_def isWhiteSpace_def)
  have c: "trim (js ''configured'') \<noteq> []" "js ''configured'' \<noteq> []"
    "trim (js ''  '') = []"
    by (simp_all add: trim_eq_Nil js_def isWhiteSpace_def)
  have m: "filter (\<lambda>key. \<not> present ?e key) REQUIRED_VARS = [js ''SITE_URL'']"
    by (simp add: REQUIRED_VARS_def present_def fullEnv_apply js_inj c)
  from whitespace_only_value_is_missing [of ?e "js ''SITE_URL''" online ?e "js ''  ''"] r k v s
  obtain rr where "\<not> present ?e (js ''SITE_URL'')" "main online ?e = Returns rr"
    "(js ''SITE_URL'', False) \<in> set (envStatus rr)"
    "missingKeys rr = filter (\<lambda>key. \<not> present ?e key) REQUIRED_VARS" "exitCode rr = 1"
    "processExit online ?e = 1"
    by blast
  with m show ?thesis by simp
qed

text \<open>
  Claim C10, as amended. \<^verbatim>\<open>process.env\<close> stores a value up to its first NUL, so the
  parser assigns an empty value only from a line whose value part is not empty after
  quote stripping but begins with NUL; from a file without NUL it never assigns an empty
  value. A line without \<^verbatim>\<open>=\<close>, and a line whose part after the first \<^verbatim>\<open>=\<close> is empty
  once the quotes are stripped, such as \<^verbatim>\<open>KEY=\<close> and \<^verbatim>\<open>KEY=""\<close>, leave the
  environment as it was.
\<close>

theorem fallback_file_assigns_no_empty_value:
  "(loadLine e line k = Some [] \<and> e k \<noteq> Some []
      \<longrightarrow> (\<exists>key rest. trim line = key @ 61 # rest \<and> 61 \<notin> set key \<and> k = cString key
             \<and> stripQuotes rest \<noteq> [] \<and> hd (stripQuotes rest) = 0))
   \<and> (0 \<notin> set line \<and> loadLine e line k = Some [] \<longrightarrow> e k = Some [])
   \<and> (0 \<notin> set content \<and> loadEnvFromFile (Content content) e = Returns e' \<and> e' k = Some []
      \<longrightarrow> e k = Some [])
   \<and> (61 \<notin> set (trim line) \<longrightarrow> loadLine e line = e)
   \<and> (trim line = key @ 61 # rest \<and> 61 \<notin> set key \<and> stripQuotes rest = []
        \<longrightarrow> loadLine e line = e)
   \<and> loadLine e (js ''KEY='') = e
   \<and> loadLine e (js ''KEY='' @ [34, 34]) = e
   \<and> loadLine e (js ''KEY'') = e"
proof (intro conjI impI)
  assume "loadLine e line k = Some [] \<and> e k \<noteq> Some []"
  then show "\<exists>key rest. trim line = key @ 61 # rest \<and> 61 \<notin> set key \<and> k = cString key
             \<and> stripQuotes rest \<noteq> [] \<and> hd (stripQuotes rest) = 0"
    using loadLine_empty_value [of e line k] by blast
next
  assume "0 \<notin> set line \<and> loadLine e line k = Some []"
  then show "e k = Some []" using loadLine_no_NUL [of line e k] by blast
next
  assume "0 \<notin> set content \<and> loadEnvFromFile (Content content) e = Returns e' \<and> e' k = Some []"
  then show "e k = Some []" using loadEnvFromFile_no_NUL [of content e e' k] by blast
next
  assume "61 \<notin> set (trim line)"
  then show "loadLine e line = e" by (simp add: loadLine_skips)
next
  assume "trim line = key @ 61 # rest \<and> 61 \<notin> set key \<and> stripQuotes rest = []"
  then show "loadLine e line = e" by (simp add: loadLine_key_value)
next
  show "loadLine e (js ''KEY='') = e"
    by (simp add: loadLine_eq js_def trim_def isWhiteSpace_def stripQuotes_def)
next
  show "loadLine e (js ''KEY='' @ [34, 34]) = e"
    by (simp add: loadLine_eq js_def trim_def isWhiteSpace_def stripQuotes_def
        stripTrailingQuote_def isQuote_def)
next
  show "loadLine e (js ''KEY'') = e"
    by (simp add: loadLine_eq js_def trim_def isWhiteSpace_def)
qed

theorem fallback_file_assigns_no_empty_value_witness:
  "loadLine [js ''A'' \<mapsto> js ''1''] (js ''B='' @ [39, 39]) = [js ''A'' \<mapsto> js ''1'']
   \<and> loadLine [js ''A'' \<mapsto> js ''1''] (js ''export B'') = [js ''A'' \<mapsto> js ''1'']
   \<and> loadEnvFromFile (Content (js ''A='' @ [10] @ js ''B=2'')) [js ''A'' \<mapsto> []]
       = Returns [js ''A'' \<mapsto> [], js ''B'' \<mapsto> js ''2'']
   \<and> hd (stripQuotes (0 # js ''x'')) = 0"
proof -
  let ?e = "[js ''A'' \<mapsto> js ''1'']"
  let ?d = "[js ''A'' \<mapsto> [], js ''B'' \<mapsto> js ''2'']"
  note th = fallback_file_assigns_no_empty_value
  have t1: "trim (js ''B='' @ [39, 39]) = js ''B'' @ 61 # [39, 39] \<and> 61 \<notin> set (js ''B'')
    \<and> stripQuotes [39, 39] = []"
    by (simp add: trim_def js_def isWhiteSpace_def stripQuotes_def stripTrailingQuote_def isQuote_def)
  from th [where line = "js ''B='' @ [39, 39]" and key = "js ''B''" and rest = "[39, 39]"
      and e = ?e] t1
  have a: "loadLine ?e (js ''B='' @ [39, 39]) = ?e" by blast
  have t2: "61 \<notin> set (trim (js ''export B''))"
    by (simp add: trim_def js_def isWhiteSpace_def)
  from th [where line = "js ''export B''" and e = ?e] t2
  have b: "loadLine ?e (js ''export B'') = ?e" by blast
  have c: "loadEnvFromFile (Content (js ''A='' @ [10] @ js ''B=2'')) [js ''A'' \<mapsto> []] = Returns ?d"
    by (simp add: loadEnvFromFile_def loadLine_def js_def trim_def isWhiteSpace_def startsWith_def
      stripQuotes_def stripTrailingQuote_def isQuote_def envTruthy_def envSet_def cString_def
      isHighSurrogate_def isLowSurrogate_def
      objectPrototype_def)
  have d: "?d (js ''A'') = Some []" by (simp add: js_inj)
  have z: "0 \<notin> set (js ''A='' @ [10] @ js ''B=2'')" by (simp add: js_def)
  note imp = th [where e = "[js ''A'' \<mapsto> []]" and k = "js ''A''"
      and content = "js ''A='' @ [10] @ js ''B=2''" and e' = ?d,
      THEN conjunct2, THEN conjunct2, THEN conjunct1]
  from z c d have "[js ''A'' \<mapsto> []] (js ''A'') = Some ([] :: jsstring)"
    by (intro mp [OF imp] conjI)
  have l: "loadLine Map.empty (js ''L='' @ [0] @ js ''x'') (js ''L'') = Some []
    \<and> Map.empty (js ''L'') \<noteq> Some ([] :: jsstring)"
    by (simp add: loadLine_eq js_def trim_def isWhiteSpace_def stripQuotes_def
        stripTrailingQuote_def isQuote_def envTruthy_def envSet_def cString_def
      isHighSurrogate_def isLowSurrogate_def
        objectPrototype_def)
  from th [where e = Map.empty and line = "js ''L='' @ [0] @ js ''x''" and k = "js ''L''"] l
  obtain key rest where "trim (js ''L='' @ [0] @ js ''x'') = key @ 61 # rest" "61 \<notin> set key"
    "hd (stripQuotes rest) = 0"
    by blast
  moreover have "trim (js ''L='' @ [0] @ js ''x'') = js ''L'' @ 61 # (0 # js ''x'')"
    by (simp add: trim_def js_def isWhiteSpace_def)
  ultimately have "hd (stripQuotes (0 # js ''x'')) = 0"
    by (auto simp: js_def append_eq_Cons_conv Cons_eq_append_conv)
  with a b c show ?thesis by simp
qed

text \<open>
  The claim as stated fails for a value that begins with NUL: it is not empty after quote
  stripping, so the line passes the guard, and \<^verbatim>\<open>process.env\<close> stores the empty string.
\<close>

theorem value_cut_at_NUL_is_empty_counterexample:
  "stripQuotes (0 # js ''x'') = 0 # js ''x''
   \<and> loadEnvFromFile (Content (js ''L='' @ [0] @ js ''x'')) Map.empty
     = Returns [js ''L'' \<mapsto> []]"
  by (simp add: loadEnvFromFile_def loadLine_def js_def trim_def isWhiteSpace_def startsWith_def
      stripQuotes_def stripTrailingQuote_def isQuote_def envTruthy_def envSet_def cString_def
      isHighSurrogate_def isLowSurrogate_def
      objectPrototype_def)

end
